theory Spec2Isabelle
  imports Main
begin

section \<open>Text\<close>

text \<open>
  A Python \<open>str\<close> is a sequence of code points. The model takes the code points
  U+0000 to U+00FF: a \<^typ>\<open>char\<close> is read as the code point of its number, and a
  \<^typ>\<open>string\<close> as the sequence of them. The character classes below are those of
  \<open>str.isspace\<close>, \<open>str.isdecimal\<close>, \<open>str.isdigit\<close>, \<open>str.isupper\<close>,
  \<open>str.islower\<close> and \<open>str.lower\<close> on that range. Python integers are unbounded
  (\<^typ>\<open>int\<close>); the interpreter's optional limit on the length of a decimal
  conversion is a setting of the interpreter and is left out.
\<close>

datatype error = ValueError

definition isspace :: "char \<Rightarrow> bool" where
  "isspace c = (let n = (of_char c :: nat) in
     (9 \<le> n \<and> n \<le> 13) \<or> (28 \<le> n \<and> n \<le> 32) \<or> n = 133 \<or> n = 160)"

definition isdecimal :: "char \<Rightarrow> bool" where
  "isdecimal c = (let n = (of_char c :: nat) in 48 \<le> n \<and> n \<le> 57)"

text \<open>\<open>c.isdigit()\<close> also holds of the superscript digits U+00B2, U+00B3, U+00B9.\<close>

definition isdigit :: "char \<Rightarrow> bool" where
  "isdigit c = (let n = (of_char c :: nat) in
     (48 \<le> n \<and> n \<le> 57) \<or> n = 178 \<or> n = 179 \<or> n = 185)"

definition isupper_chr :: "char \<Rightarrow> bool" where
  "isupper_chr c = (let n = (of_char c :: nat) in
     (65 \<le> n \<and> n \<le> 90) \<or> (192 \<le> n \<and> n \<le> 222 \<and> n \<noteq> 215))"

definition islower_chr :: "char \<Rightarrow> bool" where
  "islower_chr c = (let n = (of_char c :: nat) in
     (97 \<le> n \<and> n \<le> 122) \<or> n = 170 \<or> n = 181 \<or> n = 186 \<or>
     (223 \<le> n \<and> n \<le> 255 \<and> n \<noteq> 247))"

text \<open>\<open>s.isupper()\<close>: some cased character is upper case and none is lower case.\<close>

definition isupper :: "string \<Rightarrow> bool" where
  "isupper s = (list_ex isupper_chr s \<and> list_all (\<lambda>c. \<not> islower_chr c) s)"

definition lower_chr :: "char \<Rightarrow> char" where
  "lower_chr c = (if isupper_chr c then char_of ((of_char c :: nat) + 32) else c)"

definition lower :: "string \<Rightarrow> string" where
  "lower s = map lower_chr s"

definition strip :: "string \<Rightarrow> string" where
  "strip s = rev (dropWhile isspace (rev (dropWhile isspace s)))"

text \<open>\<open>s.split()\<close>: the maximal runs of characters that are not white space.\<close>

fun split_from :: "string \<Rightarrow> string \<Rightarrow> string list" where
  "split_from cur [] = (if cur = [] then [] else [cur])"
| "split_from cur (c # cs) =
     (if isspace c then (if cur = [] then split_from [] cs else cur # split_from [] cs)
      else split_from (cur @ [c]) cs)"

definition split :: "string \<Rightarrow> string list" where
  "split s = split_from [] s"

fun join :: "string \<Rightarrow> string list \<Rightarrow> string" where
  "join sep [] = []"
| "join sep [x] = x"
| "join sep (x # y # ys) = x @ sep @ join sep (y # ys)"

text \<open>\<open>sub in text\<close> on strings: \<open>sub\<close> occurs in \<open>text\<close> as a contiguous run.\<close>

fun startswith :: "string \<Rightarrow> string \<Rightarrow> bool" where
  "startswith text [] = True"
| "startswith [] (p # ps) = False"
| "startswith (c # cs) (p # ps) = (c = p \<and> startswith cs ps)"

fun contains :: "string \<Rightarrow> string \<Rightarrow> bool" where
  "contains [] sub = (sub = [])"
| "contains (c # cs) sub = (startswith (c # cs) sub \<or> contains cs sub)"

subsection \<open>Integers and their decimal text\<close>

definition int_of_digits :: "string \<Rightarrow> int" where
  "int_of_digits ds = foldl (\<lambda>a c. 10 * a + int ((of_char c :: nat) - 48)) 0 ds"

text \<open>
  \<open>int(s)\<close> on a string without sign, underscore or white space, which is all that
  \<open>clean_int\<close> passes to it: every character has to be a decimal digit, and there has
  to be one; otherwise \<open>int\<close> raises \<open>ValueError\<close>.
\<close>

definition py_int :: "string \<Rightarrow> error + int" where
  "py_int s = (if s \<noteq> [] \<and> list_all isdecimal s then Inr (int_of_digits s) else Inl ValueError)"



section \<open>Helpers\<close>

text \<open>
  \<^verbatim>\<open>
  def clean_int(text: str) -> int:
      digits = "".join(c for c in (text or "") if c.isdigit())
      return int(digits) if digits else 0
  \<close>
\<close>

definition clean_int :: "string \<Rightarrow> error + int" where
  "clean_int text = (let digits = filter isdigit text in
     if digits \<noteq> [] then py_int digits else Inr 0)"

text \<open>
  An entry of \<open>DRIVER_ROSTER\<close> is a dict with the keys \<open>first\<close>, \<open>last\<close>, \<open>number\<close>,
  \<open>team\<close> and \<open>car\<close>.
\<close>

record driver =
  r_first :: string
  r_last :: string
  r_number :: int
  r_team :: string
  r_car :: string

definition DRIVER_ROSTER :: "driver list" where
  "DRIVER_ROSTER = [
     \<lparr>r_first = ''Pierre'', r_last = ''Gasly'', r_number = 10, r_team = ''Alpine'', r_car = ''Alpine A526''\<rparr>,
     \<lparr>r_first = ''Franco'', r_last = ''Colapinto'', r_number = 43, r_team = ''Alpine'', r_car = ''Alpine A526''\<rparr>,
     \<lparr>r_first = ''Fernando'', r_last = ''Alonso'', r_number = 14, r_team = ''Aston Martin'', r_car = ''Aston Martin AMR26''\<rparr>,
     \<lparr>r_first = ''Lance'', r_last = ''Stroll'', r_number = 18, r_team = ''Aston Martin'', r_car = ''Aston Martin AMR26''\<rparr>,
     \<lparr>r_first = ''Nico'', r_last = ''Hulkenberg'', r_number = 27, r_team = ''Audi'', r_car = ''Audi R26''\<rparr>,
     \<lparr>r_first = ''Gabriel'', r_last = ''Bortoleto'', r_number = 5, r_team = ''Audi'', r_car = ''Audi R26''\<rparr>,
     \<lparr>r_first = ''Sergio'', r_last = ''Perez'', r_number = 11, r_team = ''Cadillac'', r_car = ''Cadillac''\<rparr>,
     \<lparr>r_first = ''Valtteri'', r_last = ''Bottas'', r_number = 77, r_team = ''Cadillac'', r_car = ''Cadillac''\<rparr>,
     \<lparr>r_first = ''Charles'', r_last = ''Leclerc'', r_number = 16, r_team = ''Ferrari'', r_car = ''Ferrari SF-26''\<rparr>,
     \<lparr>r_first = ''Lewis'', r_last = ''Hamilton'', r_number = 44, r_team = ''Ferrari'', r_car = ''Ferrari SF-26''\<rparr>,
     \<lparr>r_first = ''Esteban'', r_last = ''Ocon'', r_number = 31, r_team = ''Haas F1 Team'', r_car = ''Haas VF-26''\<rparr>,
     \<lparr>r_first = ''Oliver'', r_last = ''Bearman'', r_number = 87, r_team = ''Haas F1 Team'', r_car = ''Haas VF-26''\<rparr>,
     \<lparr>r_first = ''Lando'', r_last = ''Norris'', r_number = 4, r_team = ''McLaren'', r_car = ''McLaren MCL40''\<rparr>,
     \<lparr>r_first = ''Oscar'', r_last = ''Piastri'', r_number = 81, r_team = ''McLaren'', r_car = ''McLaren MCL40''\<rparr>,
     \<lparr>r_first = ''George'', r_last = ''Russell'', r_number = 63, r_team = ''Mercedes'', r_car = ''Mercedes W17''\<rparr>,
     \<lparr>r_first = ''Kimi'', r_last = ''Antonelli'', r_number = 12, r_team = ''Mercedes'', r_car = ''Mercedes W17''\<rparr>,
     \<lparr>r_first = ''Liam'', r_last = ''Lawson'', r_number = 30, r_team = ''Racing Bulls'', r_car = ''Racing Bulls VCARB 03''\<rparr>,
     \<lparr>r_first = ''Arvid'', r_last = ''Lindblad'', r_number = 6, r_team = ''Racing Bulls'', r_car = ''Racing Bulls VCARB 03''\<rparr>,
     \<lparr>r_first = ''Max'', r_last = ''Verstappen'', r_number = 1, r_team = ''Red Bull Racing'', r_car = ''Red Bull RB22''\<rparr>,
     \<lparr>r_first = ''Isack'', r_last = ''Hadjar'', r_number = 22, r_team = ''Red Bull Racing'', r_car = ''Red Bull RB22''\<rparr>,
     \<lparr>r_first = ''Carlos'', r_last = ''Sainz'', r_number = 55, r_team = ''Williams'', r_car = ''Williams FW48''\<rparr>,
     \<lparr>r_first = ''Alexander'', r_last = ''Albon'', r_number = 23, r_team = ''Williams'', r_car = ''Williams FW48''\<rparr>]"

text \<open>
  \<open>_ROSTER_BY_NAME\<close> is a dict comprehension over the roster: of two entries with the same
  key the later one stays.
\<close>

definition roster_key :: "driver \<Rightarrow> string" where
  "roster_key d = lower (r_first d) @ '' '' @ lower (r_last d)"

definition roster_by_name :: "driver list \<Rightarrow> (string \<rightharpoonup> driver)" where
  "roster_by_name roster = foldl (\<lambda>m d. m(roster_key d \<mapsto> d)) Map.empty roster"

definition ROSTER_BY_NAME :: "string \<rightharpoonup> driver" where
  "ROSTER_BY_NAME = roster_by_name DRIVER_ROSTER"

text \<open>
  \<^verbatim>\<open>
  def lookup_driver(first: str, last: str) -> Optional[dict]:
      key = f"{first.strip().lower()} {last.strip().lower()}"
      return _ROSTER_BY_NAME.get(key)
  \<close>
  \<open>lookup_in\<close> is \<open>lookup_driver\<close> with the roster as a parameter.
\<close>

definition lookup_key :: "string \<Rightarrow> string \<Rightarrow> string" where
  "lookup_key first_n last_n = lower (strip first_n) @ '' '' @ lower (strip last_n)"

definition lookup_in :: "driver list \<Rightarrow> string \<Rightarrow> string \<Rightarrow> driver option" where
  "lookup_in roster first_n last_n = roster_by_name roster (lookup_key first_n last_n)"

definition lookup_driver :: "string \<Rightarrow> string \<Rightarrow> driver option" where
  "lookup_driver first_n last_n = ROSTER_BY_NAME (lookup_key first_n last_n)"

section \<open>The parsed page\<close>

text \<open>
  What BeautifulSoup hands to the scraper: a tree of tags and of the strings between
  them. \<open>find_all\<close> lists the matching tags below a node in document order, \<open>find_tag\<close>
  (the method \<open>find\<close>) gives the first of them, and \<open>get_text(separator, strip=True)\<close> joins the stripped,
  non-empty strings below a node.
\<close>

datatype node = Text string | Tag string "node list"

fun descendants :: "node \<Rightarrow> node list" where
  "descendants (Text s) = []"
| "descendants (Tag nm children) = concat (map (\<lambda>c. c # descendants c) children)"

fun has_name :: "string list \<Rightarrow> node \<Rightarrow> bool" where
  "has_name names (Text s) = False"
| "has_name names (Tag nm children) = (nm \<in> set names)"

definition find_all :: "string list \<Rightarrow> node \<Rightarrow> node list" where
  "find_all names n = filter (has_name names) (descendants n)"

definition find_tag :: "string list \<Rightarrow> node \<Rightarrow> node option" where
  "find_tag names n = (case find_all names n of [] \<Rightarrow> None | t # _ \<Rightarrow> Some t)"

fun strings :: "node list \<Rightarrow> string list" where
  "strings [] = []"
| "strings (Text s # ns) = s # strings ns"
| "strings (Tag nm children # ns) = strings ns"

definition get_text :: "string \<Rightarrow> node \<Rightarrow> string" where
  "get_text separator n =
     join separator (filter (\<lambda>s. s \<noteq> []) (map strip (strings (descendants n))))"

section \<open>Column detection\<close>

text \<open>
  The body of the loop of \<open>detect_columns\<close>: the \<open>if\<close>/\<open>elif\<close> chain on the lower-cased
  text of one header cell, at index \<open>i\<close>.
\<close>

definition detect_step :: "(string \<rightharpoonup> nat) \<Rightarrow> nat \<times> string \<Rightarrow> (string \<rightharpoonup> nat)" where
  "detect_step cols ith = (case ith of (i, label) \<Rightarrow>
     let text = lower label in
     if contains text ''pos'' then cols(''pos'' \<mapsto> i)
     else if contains text ''driver'' then cols(''driver'' \<mapsto> i)
     else if contains text ''nation'' then cols(''nationality'' \<mapsto> i)
     else if contains text ''team'' \<or> contains text ''constructor'' then cols(''team'' \<mapsto> i)
     else if contains text ''pts'' \<or> contains text ''point'' then cols(''pts'' \<mapsto> i)
     else if contains text ''win'' then cols(''wins'' \<mapsto> i)
     else if contains text ''pole'' then cols(''poles'' \<mapsto> i)
     else cols)"

definition detect_labels :: "string list \<Rightarrow> (string \<rightharpoonup> nat)" where
  "detect_labels labels = foldl detect_step Map.empty (enumerate 0 labels)"

definition detect_columns :: "node \<Rightarrow> (string \<rightharpoonup> nat)" where
  "detect_columns header_row =
     detect_labels (map (get_text []) (find_all [''th''] header_row))"

text \<open>
  The column mapper as the specification words it: each semantic field has its keywords,
  and a field appears in a header when one of its keywords occurs in the lower-cased text
  of some cell. \<open>first_field\<close> is the field of the first keyword, in the fixed priority
  order, that occurs in one cell.
\<close>

definition field_keywords :: "(string \<times> string list) list" where
  "field_keywords =
    [(''pos'', [''pos'']), (''driver'', [''driver'']), (''nationality'', [''nation'']),
     (''team'', [''team'', ''constructor'']), (''pts'', [''pts'', ''point'']),
     (''wins'', [''win'']), (''poles'', [''pole''])]"

definition field_matches :: "string \<Rightarrow> string \<times> string list \<Rightarrow> bool" where
  "field_matches label fk = list_ex (contains (lower label)) (snd fk)"

definition appearing_fields :: "string list \<Rightarrow> string set" where
  "appearing_fields labels =
     set (map fst (filter (\<lambda>fk. list_ex (\<lambda>label. field_matches label fk) labels)
       field_keywords))"

definition first_field :: "string \<Rightarrow> string option" where
  "first_field label = map_option fst (List.find (field_matches label) field_keywords)"

section \<open>Scraping\<close>

record standing =
  place :: int
  number :: int
  team :: string
  name :: string
  car :: string
  poles :: int
  wins :: int
  points :: int
  odds :: "(string \<times> string) list"

definition default_odds :: "(string \<times> string) list" where
  "default_odds = [(''bet365'', ''0''), (''sportsbet'', ''0''), (''dabble'', ''0'')]"

text \<open>The closure \<open>cell_text\<close> of the row loop, with the cells of the row as a parameter.\<close>

definition cell_text :: "(string \<rightharpoonup> nat) \<Rightarrow> node list \<Rightarrow> string \<Rightarrow> string" where
  "cell_text cols cells col_name =
     (case cols col_name of
        None \<Rightarrow> []
      | Some idx \<Rightarrow> if idx \<ge> length cells then [] else get_text '' '' (cells ! idx))"

text \<open>The first and last name of a row, as lines 195 to 212 extract them.\<close>

definition driver_name :: "(string \<rightharpoonup> nat) \<Rightarrow> node list \<Rightarrow> string \<times> string" where
  "driver_name cols cells =
     (let driver_cell_idx = (case cols ''driver'' of None \<Rightarrow> 0 | Some i \<Rightarrow> i) in
      if driver_cell_idx < length cells then
        let driver_cell = cells ! driver_cell_idx;
            name_parts = filter (\<lambda>t. t \<noteq> [])
              (map (get_text []) (find_all [''span'', ''p'', ''div''] driver_cell));
            name_parts = filter (\<lambda>p. \<not> (isupper p \<and> length p = 3)) name_parts
        in if length name_parts \<ge> 2 then (name_parts ! 0, name_parts ! 1)
           else
             let full = get_text '' '' driver_cell;
                 parts = split full
             in (if parts \<noteq> [] then hd parts else [],
                 if length parts > 1 then join '' '' (tl parts) else [])
      else ([], []))"

text \<open>
  One pass through the body of the row loop ends in \<open>continue\<close>, in \<open>return []\<close>, in
  an append to \<open>standings\<close>, or in an exception of \<open>clean_int\<close>.
\<close>

datatype step = Continue | Return_empty | Append standing

definition row_step :: "(string \<rightharpoonup> nat) \<Rightarrow> node \<Rightarrow> error + step" where
  "row_step cols row =
     (let cells = find_all [''td'', ''th''] row in
      if cells = [] then Inr Continue
      else if length cells = 1 then Inr Return_empty
      else
        case clean_int (cell_text cols cells ''pos'') of Inl e \<Rightarrow> Inl e | Inr place_v \<Rightarrow>
        case driver_name cols cells of (first_name, last_name) \<Rightarrow>
        let full_name = strip (first_name @ '' '' @ last_name) in
        case lookup_driver first_name last_name of None \<Rightarrow> Inr Continue | Some roster_entry \<Rightarrow>
        case clean_int (cell_text cols cells ''pts'') of Inl e \<Rightarrow> Inl e | Inr points_v \<Rightarrow>
        case clean_int (cell_text cols cells ''wins'') of Inl e \<Rightarrow> Inl e | Inr wins_v \<Rightarrow>
        case clean_int (cell_text cols cells ''poles'') of Inl e \<Rightarrow> Inl e | Inr poles_v \<Rightarrow>
          Inr (Append \<lparr>place = place_v, number = r_number roster_entry,
                       team = r_team roster_entry, name = full_name,
                       car = r_car roster_entry, poles = poles_v, wins = wins_v,
                       points = points_v, odds = default_odds\<rparr>))"

fun rows_loop :: "(string \<rightharpoonup> nat) \<Rightarrow> standing list \<Rightarrow> node list \<Rightarrow> error + standing list" where
  "rows_loop cols standings [] = Inr standings"
| "rows_loop cols standings (row # rest) =
     (case row_step cols row of
        Inl e \<Rightarrow> Inl e
      | Inr Continue \<Rightarrow> rows_loop cols standings rest
      | Inr Return_empty \<Rightarrow> Inr []
      | Inr (Append s) \<Rightarrow> rows_loop cols (standings @ [s]) rest)"

text \<open>
  The outcome of \<open>requests.get\<close>, \<open>raise_for_status\<close> and the parser: an exception on
  the way, which \<open>fetch_standings\<close> catches, or the parsed page.
\<close>

datatype response = HttpError | Page node

text \<open>
  Lines 143 to 171 of \<open>fetch_standings\<close>: the table, its \<open>thead\<close> and \<open>tbody\<close>, the header
  row and the required columns. \<open>None\<close> where the source returns \<open>None\<close>; otherwise the
  columns and the rows of the body.
\<close>

definition required :: "string list" where
  "required = [''pos'', ''driver'', ''pts'']"

definition parse_table :: "node \<Rightarrow> ((string \<rightharpoonup> nat) \<times> node list) option" where
  "parse_table soup =
     (case find_tag [''table''] soup of None \<Rightarrow> None | Some table \<Rightarrow>
      case (find_tag [''thead''] table, find_tag [''tbody''] table) of
        (None, _) \<Rightarrow> None
      | (_, None) \<Rightarrow> None
      | (Some thead, Some tbody) \<Rightarrow>
      case find_tag [''tr''] thead of None \<Rightarrow> None | Some header_row \<Rightarrow>
      let cols = detect_columns header_row;
          missing = filter (\<lambda>k. cols k = None) required
      in if missing \<noteq> [] then None else Some (cols, find_all [''tr''] tbody))"

definition fetch_standings :: "response \<Rightarrow> error + standing list option" where
  "fetch_standings resp =
     (case resp of
        HttpError \<Rightarrow> Inr None
      | Page soup \<Rightarrow>
          (case parse_table soup of
             None \<Rightarrow> Inr None
           | Some (cols, rows) \<Rightarrow>
               (case rows_loop cols [] rows of Inl e \<Rightarrow> Inl e | Inr standings \<Rightarrow> Inr (Some standings))))"

text \<open>
  \<open>build_preseason_standings\<close>, with the roster as a parameter in \<open>build_preseason_from\<close>.
\<close>

definition build_preseason_from :: "driver list \<Rightarrow> standing list" where
  "build_preseason_from roster =
     map (\<lambda>(i, d). \<lparr>place = int i + 1, number = r_number d, team = r_team d,
                     name = r_first d @ '' '' @ r_last d, car = r_car d,
                     poles = 0, wins = 0, points = 0, odds = default_odds\<rparr>)
         (enumerate 0 roster)"

definition build_preseason_standings :: "standing list" where
  "build_preseason_standings = build_preseason_from DRIVER_ROSTER"

section \<open>Main\<close>

text \<open>
  A run ends by leaving the interpreter with an exit code, with or without the output
  file written by \<open>save_json\<close>, or by an exception that nothing catches.
\<close>

datatype outcome = Exit int "standing list option" | Uncaught error

definition main :: "response \<Rightarrow> outcome" where
  "main resp =
     (case fetch_standings resp of
        Inl e \<Rightarrow> Uncaught e
      | Inr None \<Rightarrow> Exit 1 None
      | Inr (Some standings) \<Rightarrow>
          Exit 0 (Some (if length standings = 0 then build_preseason_standings else standings)))"

text \<open>
  A record takes its \<open>number\<close>, \<open>team\<close> and \<open>car\<close> from the roster entry \<open>d\<close>.
\<close>

definition from_entry :: "driver \<Rightarrow> standing \<Rightarrow> bool" where
  "from_entry d s = (number s = r_number d \<and> team s = r_team d \<and> car s = r_car d)"

section \<open>Example pages\<close>

text \<open>
  A standings page with the header Pos, Driver, Nationality, Team, Pts and a given list of
  body rows, some rows for it, and a page whose header has no points column.
\<close>

definition th_cell :: "string \<Rightarrow> node" where
  "th_cell s = Tag ''th'' [Text s]"

definition td_row :: "string list \<Rightarrow> node" where
  "td_row texts = Tag ''tr'' (map (\<lambda>s. Tag ''td'' [Text s]) texts)"

definition usual_labels :: "string list" where
  "usual_labels = [''Pos'', ''Driver'', ''Nationality'', ''Team'', ''Pts'']"

definition usual_header :: node where
  "usual_header = Tag ''tr'' (map th_cell usual_labels)"

definition usual_page :: "node list \<Rightarrow> node" where
  "usual_page rows =
     Tag ''[document]'' [Tag ''table'' [Tag ''thead'' [usual_header], Tag ''tbody'' rows]]"

definition page_no_pts :: node where
  "page_no_pts = Tag ''[document]'' [Tag ''table''
     [Tag ''thead'' [Tag ''tr'' (map th_cell [''Pos'', ''Driver'', ''Team''])],
      Tag ''tbody'' [td_row [''1'', ''Max Verstappen'', ''Red Bull Racing'']]]]"

definition row_max :: node where
  "row_max = td_row [''1'', ''Max Verstappen'', ''NED'', ''Red Bull Racing'', ''25'']"

definition row_lando :: node where
  "row_lando = td_row [''2'', ''Lando Norris'', ''GBR'', ''McLaren'', ''18'']"

definition row_no_results :: node where
  "row_no_results = td_row [''No results available'']"

text \<open>A driver the roster does not know, with a footnote mark U+00B2 after the position.\<close>

definition row_unknown_footnote :: node where
  "row_unknown_footnote =
     td_row [''3'' @ [CHR 0xB2], ''Nobody Known'', ''NED'', ''No Team'', ''7'']"

definition max_entry :: driver where
  "max_entry = \<lparr>r_first = ''Max'', r_last = ''Verstappen'', r_number = 1,
     r_team = ''Red Bull Racing'', r_car = ''Red Bull RB22''\<rparr>"

definition standing_max :: standing where
  "standing_max = \<lparr>place = 1, number = 1, team = ''Red Bull Racing'', name = ''Max Verstappen'',
      car = ''Red Bull RB22'', poles = 0, wins = 0, points = 25,
      odds = [(''bet365'', ''0''), (''sportsbet'', ''0''), (''dabble'', ''0'')]\<rparr>"

definition standing_lando :: standing where
  "standing_lando = \<lparr>place = 2, number = 4, team = ''McLaren'', name = ''Lando Norris'',
      car = ''McLaren MCL40'', poles = 0, wins = 0, points = 18,
      odds = [(''bet365'', ''0''), (''sportsbet'', ''0''), (''dabble'', ''0'')]\<rparr>"

section \<open>Numeric cleansing\<close>












text \<open>
  Where every character that \<open>isdigit\<close> keeps is a decimal digit, \<open>clean_int\<close> returns
  the number its docstring promises.
\<close>

lemma clean_int_decimal:
  "list_all isdecimal (filter isdigit text) \<Longrightarrow>
   clean_int text = Inr (if filter isdigit text = [] then 0 else int_of_digits (filter isdigit text))"
  by (simp add: clean_int_def py_int_def Let_def)

text \<open>
  C1. \<open>clean_int\<close> is claimed to return a non-negative integer for every string and never
  to fail. The superscript two, U+00B2, passes \<open>c.isdigit()\<close> and is not a decimal digit:
  \<open>int\<close> raises \<open>ValueError\<close> on it, and \<open>clean_int\<close> with it.
\<close>

theorem clean_int_superscript_raises:
  "clean_int [CHR 0xB2] = Inl ValueError \<and> clean_int (''25'' @ [CHR 0xB2]) = Inl ValueError"
  by (simp add: clean_int_def isdigit_def py_int_def isdecimal_def)



section \<open>The fallback builder\<close>

lemma build_preseason_from_nth:
  "i < length roster \<Longrightarrow>
   build_preseason_from roster ! i =
     \<lparr>place = int i + 1, number = r_number (roster ! i), team = r_team (roster ! i),
      name = r_first (roster ! i) @ '' '' @ r_last (roster ! i), car = r_car (roster ! i),
      poles = 0, wins = 0, points = 0,
      odds = [(''bet365'', ''0''), (''sportsbet'', ''0''), (''dabble'', ''0'')]\<rparr>"
  by (simp add: build_preseason_from_def nth_enumerate_eq default_odds_def)

lemma length_build_preseason_from: "length (build_preseason_from roster) = length roster"
  by (simp add: build_preseason_from_def)

lemma length_DRIVER_ROSTER: "length DRIVER_ROSTER = 22"
  by (simp add: DRIVER_ROSTER_def)

lemma DRIVER_ROSTER_18: "DRIVER_ROSTER ! 18 = max_entry"
  by (simp add: DRIVER_ROSTER_def max_entry_def)

text \<open>
  C4. For a catalog of N entries the fallback builder yields N records in catalog order;
  the record at 0-based index \<open>i\<close> has place \<open>i + 1\<close>, zero points, wins and poles, the
  entry's own first and last name joined by one space, the entry's number, team and car,
  and the odds \<open>bet365\<close>, \<open>sportsbet\<close>, \<open>dabble\<close>, each \<open>"0"\<close>. The program builds it
  from \<open>DRIVER_ROSTER\<close>.
\<close>

theorem fallback_records:
  "length (build_preseason_from roster) = length roster \<and>
   (\<forall>i < length roster.
      build_preseason_from roster ! i =
        \<lparr>place = int i + 1, number = r_number (roster ! i), team = r_team (roster ! i),
         name = r_first (roster ! i) @ '' '' @ r_last (roster ! i), car = r_car (roster ! i),
         poles = 0, wins = 0, points = 0,
         odds = [(''bet365'', ''0''), (''sportsbet'', ''0''), (''dabble'', ''0'')]\<rparr>) \<and>
   build_preseason_standings = build_preseason_from DRIVER_ROSTER"
  by (simp add: build_preseason_from_nth length_build_preseason_from build_preseason_standings_def)

theorem fallback_records_witness:
  "length build_preseason_standings = 22 \<and>
   build_preseason_standings ! 18 =
     \<lparr>place = 19, number = 1, team = ''Red Bull Racing'', name = ''Max Verstappen'',
      car = ''Red Bull RB22'', poles = 0, wins = 0, points = 0,
      odds = [(''bet365'', ''0''), (''sportsbet'', ''0''), (''dabble'', ''0'')]\<rparr>"
proof -
  have lt: "18 < length DRIVER_ROSTER"
    by (simp add: length_DRIVER_ROSTER)
  from fallback_records [of DRIVER_ROSTER] lt
  have "build_preseason_from DRIVER_ROSTER ! 18 =
        \<lparr>place = int 18 + 1, number = r_number (DRIVER_ROSTER ! 18),
         team = r_team (DRIVER_ROSTER ! 18),
         name = r_first (DRIVER_ROSTER ! 18) @ '' '' @ r_last (DRIVER_ROSTER ! 18),
         car = r_car (DRIVER_ROSTER ! 18), poles = 0, wins = 0, points = 0,
         odds = [(''bet365'', ''0''), (''sportsbet'', ''0''), (''dabble'', ''0'')]\<rparr>"
    by blast
  moreover from fallback_records [of DRIVER_ROSTER]
  have "length (build_preseason_from DRIVER_ROSTER) = length DRIVER_ROSTER"
    and "build_preseason_standings = build_preseason_from DRIVER_ROSTER"
    by blast+
  ultimately show ?thesis
    by (simp add: length_DRIVER_ROSTER DRIVER_ROSTER_18 max_entry_def)
qed

section \<open>Name resolution\<close>

lemma of_char_lower_chr:
  "isupper_chr c \<Longrightarrow> (of_char (lower_chr c) :: nat) = of_char c + 32"
  by (auto simp: lower_chr_def isupper_chr_def Let_def)

lemma lower_chr_not_upper: "\<not> isupper_chr (lower_chr c)"
proof (cases "isupper_chr c")
  case True
  then have "(of_char (lower_chr c) :: nat) = of_char c + 32"
    by (rule of_char_lower_chr)
  with True show ?thesis
    by (auto simp: isupper_chr_def Let_def)
next
  case False
  then show ?thesis by (simp add: lower_chr_def)
qed

lemma lower_chr_idem: "lower_chr (lower_chr c) = lower_chr c"
  using lower_chr_not_upper [of c] by (simp add: lower_chr_def [of "lower_chr c"])

lemma lower_idem: "lower (lower s) = lower s"
  by (simp add: lower_def lower_chr_idem)

lemma isspace_lower_chr: "isspace (lower_chr c) = isspace c"
proof (cases "isupper_chr c")
  case True
  then have "(of_char (lower_chr c) :: nat) = of_char c + 32"
    by (rule of_char_lower_chr)
  with True show ?thesis
    by (auto simp: isupper_chr_def isspace_def Let_def)
next
  case False
  then show ?thesis by (simp add: lower_chr_def)
qed

lemma dropWhile_isspace_lower:
  "dropWhile isspace (map lower_chr s) = map lower_chr (dropWhile isspace s)"
  by (induction s) (simp_all add: isspace_lower_chr)

lemma strip_lower: "strip (lower s) = lower (strip s)"
  by (simp add: strip_def lower_def dropWhile_isspace_lower rev_map)

lemma dropWhile_fixed: "xs = [] \<or> \<not> P (hd xs) \<Longrightarrow> dropWhile P xs = xs"
  by (cases xs) auto

lemma hd_dropWhile_rev:
  "t \<noteq> [] \<Longrightarrow> \<not> P (hd t) \<Longrightarrow>
   rev (dropWhile P (rev t)) \<noteq> [] \<and> hd (rev (dropWhile P (rev t))) = hd t"
proof (induction t rule: rev_induct)
  case Nil
  then show ?case by simp
next
  case (snoc x xs)
  show ?case
  proof (cases xs)
    case Nil
    with snoc.prems show ?thesis by simp
  next
    case (Cons y ys)
    with snoc show ?thesis by auto
  qed
qed

lemma strip_idem: "strip (strip s) = strip s"
proof -
  define t where "t = dropWhile isspace s"
  define u where "u = rev (dropWhile isspace (rev t))"
  have t: "t = [] \<or> \<not> isspace (hd t)"
    unfolding t_def by (metis hd_dropWhile)
  have u: "u = [] \<or> \<not> isspace (hd u)"
  proof (cases "t = []")
    case True
    then show ?thesis by (simp add: u_def)
  next
    case False
    with t have "\<not> isspace (hd t)" by simp
    with False have "hd u = hd t"
      unfolding u_def using hd_dropWhile_rev [of t isspace] by blast
    with \<open>\<not> isspace (hd t)\<close> show ?thesis by simp
  qed
  have 1: "dropWhile isspace u = u"
    using u by (rule dropWhile_fixed)
  have "rev u = dropWhile isspace (rev t)"
    by (simp add: u_def)
  then have "rev u = [] \<or> \<not> isspace (hd (rev u))"
    by (metis hd_dropWhile)
  then have 2: "dropWhile isspace (rev u) = rev u"
    by (rule dropWhile_fixed)
  have "strip s = u"
    by (simp add: strip_def t_def u_def)
  moreover have "strip u = u"
    by (simp add: strip_def 1 2)
  ultimately show ?thesis by simp
qed

lemma lookup_key_normal:
  "lookup_key (lower (strip a)) (lower (strip b)) = lookup_key a b"
  by (simp add: lookup_key_def strip_lower strip_idem lower_idem)

lemma foldl_roster_Some:
  "foldl (\<lambda>m d. m(roster_key d \<mapsto> d)) m0 roster k = Some d \<Longrightarrow>
   (d \<in> set roster \<and> roster_key d = k) \<or> m0 k = Some d"
  by (induction roster arbitrary: m0) (fastforce split: if_splits)+

lemma foldl_roster_None:
  "foldl (\<lambda>m d. m(roster_key d \<mapsto> d)) m0 roster k = None \<longleftrightarrow>
   m0 k = None \<and> (\<forall>d\<in>set roster. roster_key d \<noteq> k)"
  by (induction roster arbitrary: m0) auto

lemma roster_by_name_Some:
  "roster_by_name roster k = Some d \<Longrightarrow> d \<in> set roster \<and> roster_key d = k"
  using foldl_roster_Some [of Map.empty roster k d] by (simp add: roster_by_name_def)

lemma roster_by_name_None:
  "roster_by_name roster k = None \<longleftrightarrow> (\<forall>d\<in>set roster. roster_key d \<noteq> k)"
  by (simp add: roster_by_name_def foldl_roster_None)

lemma lookup_driver_in: "lookup_driver a b = lookup_in DRIVER_ROSTER a b"
  by (simp add: lookup_driver_def lookup_in_def ROSTER_BY_NAME_def)

lemma lookup_driver_Some: "lookup_driver a b = Some d \<Longrightarrow> d \<in> set DRIVER_ROSTER"
  by (simp add: lookup_driver_in lookup_in_def roster_by_name_Some)

lemma lookup_max: "lookup_driver ''Max'' ''Verstappen'' = Some max_entry"
  by code_simp

lemma lookup_max_shouted: "lookup_driver '' MAX '' '' verstappen '' = Some max_entry"
  by code_simp

text \<open>
  C6. Resolving a pair of names gives the same result as resolving their trimmed,
  lower-cased forms; the lookup is an exact match of the key
  \<open>lower(strip(first)) + " " + lower(strip(last))\<close> against the lower-cased
  \<open>first + " " + last\<close> of the catalog entries: an entry is returned only when its key is
  equal to it, and none is returned exactly when no entry's key is. Resolving
  \<open>(" MAX ", " verstappen ")\<close> gives the entry that \<open>("Max", "Verstappen")\<close> gives.
\<close>

theorem lookup_normalised:
  "lookup_in roster a b = lookup_in roster (lower (strip a)) (lower (strip b)) \<and>
   (\<forall>d. lookup_in roster a b = Some d \<longrightarrow>
        d \<in> set roster \<and>
        lower (r_first d) @ '' '' @ lower (r_last d) = lower (strip a) @ '' '' @ lower (strip b)) \<and>
   (lookup_in roster a b = None \<longleftrightarrow>
      (\<forall>d\<in>set roster.
         lower (r_first d) @ '' '' @ lower (r_last d) \<noteq> lower (strip a) @ '' '' @ lower (strip b))) \<and>
   lookup_driver a b = lookup_in DRIVER_ROSTER a b \<and>
   lookup_driver '' MAX '' '' verstappen '' = lookup_driver ''Max'' ''Verstappen'' \<and>
   lookup_driver ''Max'' ''Verstappen'' = Some max_entry"
proof -
  have "lookup_in roster a b = lookup_in roster (lower (strip a)) (lower (strip b))"
    by (simp add: lookup_in_def lookup_key_normal)
  moreover have "\<forall>d. lookup_in roster a b = Some d \<longrightarrow>
        d \<in> set roster \<and>
        lower (r_first d) @ '' '' @ lower (r_last d) = lower (strip a) @ '' '' @ lower (strip b)"
    using roster_by_name_Some [of roster "lookup_key a b"]
    by (simp add: lookup_in_def roster_key_def lookup_key_def)
  moreover have "lookup_in roster a b = None \<longleftrightarrow>
      (\<forall>d\<in>set roster.
         lower (r_first d) @ '' '' @ lower (r_last d) \<noteq> lower (strip a) @ '' '' @ lower (strip b))"
    by (simp add: lookup_in_def roster_by_name_None roster_key_def lookup_key_def)
  ultimately show ?thesis
    by (simp only: lookup_driver_in [symmetric] lookup_max lookup_max_shouted simp_thms)
qed

theorem lookup_normalised_witness:
  "lookup_in DRIVER_ROSTER '' MAX '' '' verstappen '' = Some max_entry \<and>
   max_entry \<in> set DRIVER_ROSTER"
proof -
  note t = lookup_normalised [of DRIVER_ROSTER "'' MAX ''" "'' verstappen ''"]
  from t have a: "lookup_driver '' MAX '' '' verstappen '' =
      lookup_in DRIVER_ROSTER '' MAX '' '' verstappen ''"
    and b: "lookup_driver '' MAX '' '' verstappen '' = lookup_driver ''Max'' ''Verstappen''"
    and c: "lookup_driver ''Max'' ''Verstappen'' = Some max_entry"
    by blast+
  have "lookup_in DRIVER_ROSTER '' MAX '' '' verstappen '' = Some max_entry"
    by (metis a b c)
  moreover from this t have "max_entry \<in> set DRIVER_ROSTER"
    by blast
  ultimately show ?thesis by simp
qed

section \<open>The column mapper\<close>

lemma detect_step_first_field:
  "detect_step cols (i, label) =
     (case first_field label of None \<Rightarrow> cols | Some f \<Rightarrow> cols(f \<mapsto> i))"
  by (simp add: detect_step_def first_field_def field_keywords_def field_matches_def Let_def)

lemma dom_detect_foldl:
  "dom (foldl detect_step m (enumerate n labels)) =
   dom m \<union> {f. \<exists>label\<in>set labels. first_field label = Some f}"
proof (induction labels arbitrary: m n)
  case Nil
  then show ?case by simp
next
  case (Cons label labels)
  show ?case
  proof (cases "first_field label")
    case None
    then show ?thesis
      by (simp add: Cons.IH detect_step_first_field)
  next
    case (Some f)
    have "dom (m(f \<mapsto> n)) = insert f (dom m)"
      by simp
    with Some show ?thesis
      by (simp only: enumerate_simps foldl_Cons detect_step_first_field option.case Cons.IH) auto
  qed
qed

lemma dom_detect_labels:
  "dom (detect_labels labels) = {f. \<exists>label\<in>set labels. first_field label = Some f}"
  by (simp add: detect_labels_def dom_detect_foldl)

lemma find_Some_set: "List.find P xs = Some x \<Longrightarrow> x \<in> set xs \<and> P x"
  by (induction xs) (auto split: if_splits)

lemma first_field_appears:
  assumes "first_field label = Some f" and "label \<in> set labels"
  shows "f \<in> appearing_fields labels"
proof -
  from assms(1) obtain fk where "List.find (field_matches label) field_keywords = Some fk"
    and f: "f = fst fk"
    by (auto simp: first_field_def)
  then have "fk \<in> set field_keywords" and "field_matches label fk"
    by (auto dest: find_Some_set)
  with assms(2) have "fk \<in> set (filter (\<lambda>fk. list_ex (\<lambda>label. field_matches label fk) labels)
      field_keywords)"
    by (auto simp: list_ex_iff)
  then show ?thesis
    unfolding appearing_fields_def f by (metis image_eqI set_map)
qed

lemma first_field_examples:
  "first_field ''Driver'' = Some ''driver''"
  "first_field ''Car'' = None"
  "first_field ''Pts'' = Some ''pts''"
  by code_simp+

text \<open>
  C5, as the code has it. The map holds exactly the fields that are the first keyword
  match, in the priority order pos, driver, nation, team or constructor, pts or point,
  win, pole, of some header cell; each of them is a field whose keyword appears in the
  header; the set of fields does not depend on the order of the cells; a cell matching
  no keyword leaves the map as it is.
\<close>

theorem detect_labels_first_match:
  "dom (detect_labels labels) = {f. \<exists>label\<in>set labels. first_field label = Some f} \<and>
   dom (detect_labels labels) \<subseteq> appearing_fields labels \<and>
   (set labels' = set labels \<longrightarrow> dom (detect_labels labels') = dom (detect_labels labels)) \<and>
   (first_field label = None \<longrightarrow> detect_step cols (i, label) = cols) \<and>
   detect_columns header_row = detect_labels (map (get_text []) (find_all [''th''] header_row))"
proof -
  have "dom (detect_labels labels) \<subseteq> appearing_fields labels"
    by (auto simp: dom_detect_labels first_field_appears simp del: domIff)
  then show ?thesis
    by (simp add: dom_detect_labels detect_step_first_field detect_columns_def)
qed

theorem detect_labels_first_match_witness:
  "dom (detect_labels [''Driver'', ''Car'', ''Pts'']) = {''driver'', ''pts''} \<and>
   dom (detect_labels [''Pts'', ''Driver'', ''Car'']) =
     dom (detect_labels [''Driver'', ''Car'', ''Pts'']) \<and>
   detect_step Map.empty (1, ''Car'') = Map.empty"
proof -
  have s: "set [''Pts'', ''Driver'', ''Car''] = set [''Driver'', ''Car'', ''Pts'']"
    by auto
  have "{f. \<exists>label\<in>set [''Driver'', ''Car'', ''Pts'']. first_field label = Some f} =
      {''driver'', ''pts''}"
    using first_field_examples by auto
  with detect_labels_first_match [of "[''Driver'', ''Car'', ''Pts'']"
      "[''Pts'', ''Driver'', ''Car'']" "''Car''" Map.empty 1] s first_field_examples(2)
  show ?thesis
    by simp
qed

text \<open>
  C5, as the claim words it, fails: the one header cell \<open>Pole position\<close> contains the
  keywords \<open>pos\<close> and \<open>pole\<close>, and the map has the position field only.
\<close>

theorem pole_position_counterexample:
  "dom (detect_labels [''Pole position'']) \<noteq> appearing_fields [''Pole position'']"
proof -
  have "detect_labels [''Pole position''] ''poles'' = None"
    by code_simp
  then have "''poles'' \<notin> dom (detect_labels [''Pole position''])"
    by (simp add: domIff)
  moreover have "''poles'' \<in> appearing_fields [''Pole position'']"
    by code_simp
  ultimately show ?thesis by blast
qed

section \<open>The row loop\<close>

lemma row_step_single_cell:
  "length (find_all [''td'', ''th''] r) = 1 \<Longrightarrow> row_step cols r = Inr Return_empty"
  by (auto simp: row_step_def Let_def)


lemma rows_loop_upto_sentinel:
  "length (find_all [''td'', ''th''] r) = 1 \<Longrightarrow>
   rows_loop cols acc (pre @ r # post) =
     (case rows_loop cols acc pre of Inl e \<Rightarrow> Inl e | Inr standings \<Rightarrow> Inr [])"
proof (induction pre arbitrary: acc)
  case Nil
  then show ?case by (simp add: row_step_single_cell)
next
  case (Cons x xs)
  then show ?case
    by (simp split: sum.split step.split)
qed

lemma fetch_standings_Page:
  "parse_table soup = Some (cols, rows) \<Longrightarrow>
   fetch_standings (Page soup) =
     (case rows_loop cols [] rows of Inl e \<Rightarrow> Inl e | Inr standings \<Rightarrow> Inr (Some standings))"
  by (simp add: fetch_standings_def)

lemma main_empty:
  "fetch_standings resp = Inr (Some []) \<Longrightarrow> main resp = Exit 0 (Some build_preseason_standings)"
  by (simp add: main_def)

lemma parse_table_ok:
  assumes "find_tag [''table''] soup = Some table"
    and "find_tag [''thead''] table = Some thead"
    and "find_tag [''tbody''] table = Some tbody"
    and "find_tag [''tr''] thead = Some header_row"
    and "detect_columns header_row ''pos'' \<noteq> None"
    and "detect_columns header_row ''driver'' \<noteq> None"
    and "detect_columns header_row ''pts'' \<noteq> None"
  shows "parse_table soup = Some (detect_columns header_row, find_all [''tr''] tbody)"
  using assms by (simp add: parse_table_def Let_def required_def)

lemma parse_table_missing:
  assumes "find_tag [''table''] soup = Some table"
    and "find_tag [''thead''] table = Some thead"
    and "find_tag [''tbody''] table = Some tbody"
    and "find_tag [''tr''] thead = Some header_row"
    and "k \<in> {''pos'', ''driver'', ''pts''}"
    and "detect_columns header_row k = None"
  shows "parse_table soup = None"
proof -
  have "k \<in> set (filter (\<lambda>k. detect_columns header_row k = None) required)"
    using assms(5,6) by (auto simp: required_def)
  then have "filter (\<lambda>k. detect_columns header_row k = None) required \<noteq> []"
    by (metis empty_iff list.set(1))
  with assms(1-4) show ?thesis
    by (simp add: parse_table_def Let_def)
qed

subsection \<open>The example pages, evaluated\<close>

lemma usual_header_cols:
  "detect_columns usual_header ''pos'' = Some 0"
  "detect_columns usual_header ''driver'' = Some 1"
  "detect_columns usual_header ''pts'' = Some 4"
  by code_simp+

lemma find_usual_page:
  "find_tag [''table''] (usual_page rows) =
     Some (Tag ''table'' [Tag ''thead'' [usual_header], Tag ''tbody'' rows])"
  "find_tag [''thead''] (Tag ''table'' [Tag ''thead'' [usual_header], Tag ''tbody'' rows]) =
     Some (Tag ''thead'' [usual_header])"
  "find_tag [''tbody''] (Tag ''table'' [Tag ''thead'' [usual_header], Tag ''tbody'' rows]) =
     Some (Tag ''tbody'' rows)"
  "find_tag [''tr''] (Tag ''thead'' [usual_header]) = Some usual_header"
  by (simp_all add: find_tag_def find_all_def usual_page_def usual_header_def usual_labels_def
      th_cell_def)

lemma parse_table_usual_page:
  "parse_table (usual_page rows) =
     Some (detect_columns usual_header, find_all [''tr''] (Tag ''tbody'' rows))"
  by (rule parse_table_ok [OF find_usual_page]) (simp_all add: usual_header_cols)

lemma find_all_rows:
  "find_all [''tr''] (Tag ''tbody'' [row_max]) = [row_max]"
  "find_all [''tr''] (Tag ''tbody'' [row_max, row_no_results, row_lando]) =
     [row_max] @ row_no_results # [row_lando]"
  "find_all [''tr''] (Tag ''tbody'' [row_max, row_lando, row_no_results]) =
     [row_max, row_lando] @ row_no_results # []"
  "find_all [''tr''] (Tag ''tbody'' [row_unknown_footnote, row_max]) =
     [row_unknown_footnote, row_max]"
  by code_simp+

lemma no_results_one_cell: "length (find_all [''td'', ''th''] row_no_results) = 1"
  by code_simp

lemma loop_max: "rows_loop (detect_columns usual_header) [] [row_max] = Inr [standing_max]"
  by code_simp

lemma loop_max_lando:
  "rows_loop (detect_columns usual_header) [] [row_max, row_lando] =
     Inr [standing_max, standing_lando]"
  by code_simp

lemma fetch_max: "fetch_standings (Page (usual_page [row_max])) = Inr (Some [standing_max])"
  unfolding fetch_standings_Page [OF parse_table_usual_page] find_all_rows loop_max
  by simp

lemma find_page_no_pts:
  "find_tag [''table''] page_no_pts = Some (Tag ''table''
     [Tag ''thead'' [Tag ''tr'' (map th_cell [''Pos'', ''Driver'', ''Team''])],
      Tag ''tbody'' [td_row [''1'', ''Max Verstappen'', ''Red Bull Racing'']]])"
  "find_tag [''thead''] (Tag ''table''
     [Tag ''thead'' [Tag ''tr'' (map th_cell [''Pos'', ''Driver'', ''Team''])],
      Tag ''tbody'' [td_row [''1'', ''Max Verstappen'', ''Red Bull Racing'']]]) =
    Some (Tag ''thead'' [Tag ''tr'' (map th_cell [''Pos'', ''Driver'', ''Team''])])"
  "find_tag [''tbody''] (Tag ''table''
     [Tag ''thead'' [Tag ''tr'' (map th_cell [''Pos'', ''Driver'', ''Team''])],
      Tag ''tbody'' [td_row [''1'', ''Max Verstappen'', ''Red Bull Racing'']]]) =
    Some (Tag ''tbody'' [td_row [''1'', ''Max Verstappen'', ''Red Bull Racing'']])"
  "find_tag [''tr''] (Tag ''thead'' [Tag ''tr'' (map th_cell [''Pos'', ''Driver'', ''Team''])]) =
    Some (Tag ''tr'' (map th_cell [''Pos'', ''Driver'', ''Team'']))"
  "detect_columns (Tag ''tr'' (map th_cell [''Pos'', ''Driver'', ''Team''])) ''pts'' = None"
  by code_simp+

lemma unknown_footnote_cells:
  "driver_name (detect_columns usual_header) (find_all [''td'', ''th''] row_unknown_footnote) =
     (''Nobody'', ''Known'')"
  "lookup_driver ''Nobody'' ''Known'' = None"
  "row_step (detect_columns usual_header) row_unknown_footnote = Inl ValueError"
  by code_simp+

subsection \<open>The exit contract\<close>

text \<open>
  C2. A page whose header row lacks one of the columns \<open>pos\<close>, \<open>driver\<close>, \<open>pts\<close> makes
  \<open>fetch_standings\<close> return \<open>None\<close>: no records, and \<open>main\<close> exits with code 1 and writes
  nothing. Whenever \<open>fetch_standings\<close> returns a list, \<open>main\<close> writes the output (the
  fallback for the empty list) and exits with code 0; and a run that exits has code 0
  exactly when it has written the file.
\<close>

theorem exit_contract:
  "(find_tag [''table''] soup = Some table \<and> find_tag [''thead''] table = Some thead \<and>
    find_tag [''tbody''] table = Some tbody \<and> find_tag [''tr''] thead = Some header_row \<and>
    (\<exists>k\<in>{''pos'', ''driver'', ''pts''}. detect_columns header_row k = None)
      \<longrightarrow> fetch_standings (Page soup) = Inr None \<and> main (Page soup) = Exit 1 None) \<and>
   (fetch_standings resp = Inr (Some standings)
      \<longrightarrow> main resp =
            Exit 0 (Some (if standings = [] then build_preseason_standings else standings))) \<and>
   (main resp = Exit code written \<longrightarrow> (code = 0 \<longleftrightarrow> written \<noteq> None))"
proof -
  have a: "fetch_standings (Page soup) = Inr None \<and> main (Page soup) = Exit 1 None"
    if "find_tag [''table''] soup = Some table" "find_tag [''thead''] table = Some thead"
      "find_tag [''tbody''] table = Some tbody" "find_tag [''tr''] thead = Some header_row"
      "k \<in> {''pos'', ''driver'', ''pts''}" "detect_columns header_row k = None" for k
  proof -
    have "parse_table soup = None"
      using that by (rule parse_table_missing)
    then show ?thesis
      by (simp add: fetch_standings_def main_def)
  qed
  have b: "main resp =
      Exit 0 (Some (if standings = [] then build_preseason_standings else standings))"
    if "fetch_standings resp = Inr (Some standings)"
    using that by (simp add: main_def)
  have c: "code = 0 \<longleftrightarrow> written \<noteq> None" if "main resp = Exit code written"
    using that by (auto simp: main_def split: sum.splits option.splits)
  show ?thesis
    using a b c by blast
qed

theorem exit_contract_witness:
  "fetch_standings (Page page_no_pts) = Inr None \<and> main (Page page_no_pts) = Exit 1 None \<and>
   main (Page (usual_page [row_max])) = Exit 0 (Some [standing_max])"
proof -
  have k: "\<exists>k\<in>{''pos'', ''driver'', ''pts''}.
      detect_columns (Tag ''tr'' (map th_cell [''Pos'', ''Driver'', ''Team''])) k = None"
    using find_page_no_pts(5) by blast
  have n: "[standing_max] \<noteq> []" by simp
  from exit_contract [of page_no_pts _ _ _ _ "Page (usual_page [row_max])" "[standing_max]"]
    find_page_no_pts(1-4) k fetch_max n
  show ?thesis
    by simp
qed

subsection \<open>The single-cell row\<close>



text \<open>
  C10. When the rows before a single-cell row have been interpreted into records, those
  records are discarded: the loop returns the empty list for the whole page, and \<open>main\<close>
  writes the fallback in their place.
\<close>

theorem earlier_records_discarded:
  assumes "parse_table soup = Some (cols, pre @ r # post)"
    and "rows_loop cols [] pre = Inr standings"
    and "standings \<noteq> []"
    and "length (find_all [''td'', ''th''] r) = 1"
  shows "rows_loop cols [] (pre @ r # post) = Inr [] \<and>
         fetch_standings (Page soup) = Inr (Some []) \<and>
         main (Page soup) = Exit 0 (Some build_preseason_standings)"
proof -
  have "rows_loop cols [] (pre @ r # post) = Inr []"
    using assms(2,4) by (simp add: rows_loop_upto_sentinel)
  moreover from this assms(1) have "fetch_standings (Page soup) = Inr (Some [])"
    by (simp add: fetch_standings_Page)
  ultimately show ?thesis
    by (simp add: main_empty)
qed

theorem earlier_records_discarded_witness:
  "rows_loop (detect_columns usual_header) [] [row_max, row_lando] =
     Inr [standing_max, standing_lando] \<and>
   fetch_standings (Page (usual_page [row_max, row_lando, row_no_results])) = Inr (Some []) \<and>
   main (Page (usual_page [row_max, row_lando, row_no_results])) =
     Exit 0 (Some build_preseason_standings)"
proof -
  have p: "parse_table (usual_page [row_max, row_lando, row_no_results]) =
      Some (detect_columns usual_header, [row_max, row_lando] @ row_no_results # [])"
    by (simp only: parse_table_usual_page find_all_rows)
  have n: "[standing_max, standing_lando] \<noteq> []" by simp
  from earlier_records_discarded [OF p loop_max_lando n no_results_one_cell] loop_max_lando
  show ?thesis
    by simp
qed

subsection \<open>Rows the roster does not know\<close>

text \<open>
  A row of two or more cells whose position cell cleans to a number and whose name
  resolves to no entry is skipped, and the loop goes on with the next row.
\<close>

lemma row_step_unmatched:
  assumes "length (find_all [''td'', ''th''] row) \<ge> 2"
    and "clean_int (cell_text cols (find_all [''td'', ''th''] row) ''pos'') = Inr p"
    and "driver_name cols (find_all [''td'', ''th''] row) = (a, b)"
    and "lookup_driver a b = None"
  shows "row_step cols row = Inr Continue"
    and "rows_loop cols acc (row # rest) = rows_loop cols acc rest"
proof -
  from assms(1) have "find_all [''td'', ''th''] row \<noteq> []"
    and "length (find_all [''td'', ''th''] row) \<noteq> 1"
    by auto
  with assms(2-4) show "row_step cols row = Inr Continue"
    by (simp add: row_step_def Let_def)
  then show "rows_loop cols acc (row # rest) = rows_loop cols acc rest"
    by simp
qed

text \<open>
  C7. A row whose name resolves to no catalog entry is claimed to propagate no error and
  to let the run go on. The position cell is cleaned before the name is looked up: on the
  row \<open>3\<close> with U+00B2 after it, \<open>Nobody Known\<close>, \<open>NED\<close>, \<open>No Team\<close>, \<open>7\<close> the name resolves to no entry,
  \<open>clean_int\<close> raises on the position text, and the run ends with the exception, the
  row of a known driver after it unread.
\<close>

theorem unmatched_row_footnote_raises:
  "driver_name (detect_columns usual_header) (find_all [''td'', ''th''] row_unknown_footnote) =
     (''Nobody'', ''Known'') \<and>
   lookup_driver ''Nobody'' ''Known'' = None \<and>
   row_step (detect_columns usual_header) row_unknown_footnote = Inl ValueError \<and>
   fetch_standings (Page (usual_page [row_unknown_footnote, row_max])) = Inl ValueError \<and>
   main (Page (usual_page [row_unknown_footnote, row_max])) = Uncaught ValueError"
proof -
  have "fetch_standings (Page (usual_page [row_unknown_footnote, row_max])) = Inl ValueError"
    unfolding fetch_standings_Page [OF parse_table_usual_page] find_all_rows
    by (simp add: unknown_footnote_cells)
  then show ?thesis
    by (simp add: unknown_footnote_cells main_def)
qed

subsection \<open>One entry for each record\<close>

lemma row_step_Append:
  assumes "row_step cols row = Inr (Append s)"
  shows "\<exists>d a b. lookup_driver a b = Some d \<and> from_entry d s \<and> name s = strip (a @ '' '' @ b)"
proof -
  obtain a b where ab: "driver_name cols (find_all [''td'', ''th''] row) = (a, b)"
    by (cases "driver_name cols (find_all [''td'', ''th''] row)")
  from assms ab obtain d where "lookup_driver a b = Some d"
    and "number s = r_number d" and "team s = r_team d" and "car s = r_car d"
    and "name s = strip (a @ '' '' @ b)"
    by (auto simp: row_step_def Let_def split: if_splits sum.splits option.splits)
  then show ?thesis
    unfolding from_entry_def by blast
qed

lemma rows_loop_invariant:
  assumes "rows_loop cols acc rows = Inr out"
    and "\<forall>s\<in>set acc. P s"
    and "\<And>row s. row_step cols row = Inr (Append s) \<Longrightarrow> P s"
  shows "\<forall>s\<in>set out. P s"
  using assms(1,2)
proof (induction rows arbitrary: acc)
  case Nil
  then show ?case by simp
next
  case (Cons row rows)
  show ?case
  proof (cases "row_step cols row")
    case (Inl e)
    with Cons.prems show ?thesis by simp
  next
    case (Inr st)
    show ?thesis
    proof (cases st)
      case Continue
      with Inr Cons show ?thesis by simp
    next
      case Return_empty
      with Inr Cons.prems show ?thesis by auto
    next
      case (Append s)
      with Inr have "P s" by (simp add: assms(3))
      with Cons.prems(2) have "\<forall>x\<in>set (acc @ [s]). P x" by simp
      moreover from Cons.prems(1) Inr Append have "rows_loop cols (acc @ [s]) rows = Inr out"
        by simp
      ultimately show ?thesis by (rule Cons.IH [rotated])
    qed
  qed
qed

lemma fallback_from_entry:
  "s \<in> set (build_preseason_from roster) \<Longrightarrow>
   \<exists>d\<in>set roster. from_entry d s \<and> name s = r_first d @ '' '' @ r_last d"
  by (auto simp: build_preseason_from_def from_entry_def in_set_enumerate_eq)

lemma fetch_from_entry:
  assumes "fetch_standings resp = Inr (Some standings)" and "s \<in> set standings"
  shows "\<exists>d\<in>set DRIVER_ROSTER. from_entry d s \<and>
           (\<exists>a b. lookup_driver a b = Some d \<and> name s = strip (a @ '' '' @ b))"
proof -
  from assms(1) obtain cols rows where "rows_loop cols [] rows = Inr standings"
    by (auto simp: fetch_standings_def split: response.splits option.splits sum.splits)
  then have "\<forall>s\<in>set standings. \<exists>d\<in>set DRIVER_ROSTER. from_entry d s \<and>
           (\<exists>a b. lookup_driver a b = Some d \<and> name s = strip (a @ '' '' @ b))"
  proof (rule rows_loop_invariant)
    show "\<forall>s\<in>set []. \<exists>d\<in>set DRIVER_ROSTER. from_entry d s \<and>
           (\<exists>a b. lookup_driver a b = Some d \<and> name s = strip (a @ '' '' @ b))"
      by simp
  next
    fix row s
    assume "row_step cols row = Inr (Append s)"
    then obtain d a b where "lookup_driver a b = Some d" "from_entry d s"
      "name s = strip (a @ '' '' @ b)"
      using row_step_Append by blast
    then show "\<exists>d\<in>set DRIVER_ROSTER. from_entry d s \<and>
           (\<exists>a b. lookup_driver a b = Some d \<and> name s = strip (a @ '' '' @ b))"
      using lookup_driver_Some by blast
  qed
  with assms(2) show ?thesis by blast
qed

text \<open>
  C9. Every record that \<open>fetch_standings\<close> returns takes its number, team and car from
  one entry of the roster, the entry that \<open>lookup_driver\<close> resolved for the names of which the
  record's name is made; every record of the fallback takes them from the entry whose
  own names make its name; so every record that \<open>main\<close> writes takes the three from one
  entry.
\<close>

theorem record_from_one_entry:
  "(fetch_standings resp = Inr (Some standings) \<and> s \<in> set standings \<longrightarrow>
      (\<exists>d\<in>set DRIVER_ROSTER. from_entry d s \<and>
         (\<exists>a b. lookup_driver a b = Some d \<and> name s = strip (a @ '' '' @ b)))) \<and>
   (s \<in> set build_preseason_standings \<longrightarrow>
      (\<exists>d\<in>set DRIVER_ROSTER. from_entry d s \<and> name s = r_first d @ '' '' @ r_last d)) \<and>
   (main resp = Exit code (Some written) \<and> s \<in> set written \<longrightarrow>
      (\<exists>d\<in>set DRIVER_ROSTER. from_entry d s))"
proof -
  have live: "\<exists>d\<in>set DRIVER_ROSTER. from_entry d s \<and>
         (\<exists>a b. lookup_driver a b = Some d \<and> name s = strip (a @ '' '' @ b))"
    if "fetch_standings resp = Inr (Some standings)" "s \<in> set standings" for standings s
    using that by (rule fetch_from_entry)
  have fallback: "\<exists>d\<in>set DRIVER_ROSTER. from_entry d s \<and> name s = r_first d @ '' '' @ r_last d"
    if "s \<in> set build_preseason_standings" for s
    using that unfolding build_preseason_standings_def by (rule fallback_from_entry)
  have "\<exists>d\<in>set DRIVER_ROSTER. from_entry d s"
    if m: "main resp = Exit code (Some written)" and s: "s \<in> set written"
  proof -
    from m obtain st where st: "fetch_standings resp = Inr (Some st)"
      and w: "written = (if length st = 0 then build_preseason_standings else st)"
      by (auto simp: main_def split: sum.splits option.splits)
    show ?thesis
    proof (cases "length st = 0")
      case True
      with w s fallback show ?thesis by auto
    next
      case False
      with w s live [OF st] show ?thesis by auto
    qed
  qed
  with live fallback show ?thesis by blast
qed

theorem record_from_one_entry_witness:
  "fetch_standings (Page (usual_page [row_max])) = Inr (Some [standing_max]) \<and>
   (\<exists>d\<in>set DRIVER_ROSTER. from_entry d standing_max \<and>
      (\<exists>a b. lookup_driver a b = Some d \<and> name standing_max = strip (a @ '' '' @ b)))"
proof -
  have "standing_max \<in> set [standing_max]" by simp
  with record_from_one_entry [of "Page (usual_page [row_max])" "[standing_max]" standing_max]
    fetch_max
  show ?thesis
    by blast
qed

end
